theory Spec2Isabelle
  imports Complex_Main "HOL-Library.Sublist"
begin

section \<open>Python strings\<close>

text \<open>
  A Python \<open>str\<close> is a sequence of Unicode code points. The replies of
  \<open>recipe_bot.py\<close> contain code points beyond ASCII (the emoji), so a string is a list
  of code points; \<open>str\<close> turns an ASCII literal into one.
\<close>

type_synonym codepoint = nat
type_synonym pystr = "codepoint list"

definition str :: "string \<Rightarrow> pystr" where
  "str s = map of_char s"

text \<open>
  \<open>s.lower()\<close>: on a string of ASCII code points only, CPython maps \<open>A..Z\<close> to
  \<open>a..z\<close> and leaves every other code point alone. On any other string it applies the
  Unicode case mapping of the interpreter, which is no part of this repository: it is the
  parameter \<open>unicode_lower\<close>, and every theorem below holds for each such function.
\<close>

definition ascii_lower :: "codepoint \<Rightarrow> codepoint" where
  "ascii_lower c = (if 65 \<le> c \<and> c \<le> 90 then c + 32 else c)"

definition str_lower :: "(pystr \<Rightarrow> pystr) \<Rightarrow> pystr \<Rightarrow> pystr" where
  "str_lower unicode_lower s =
     (if list_all (\<lambda>c. c < 128) s then map ascii_lower s else unicode_lower s)"

text \<open>\<open>word in s\<close> on two strings: \<open>word\<close> starts at some position of \<open>s\<close>.\<close>

fun str_in :: "pystr \<Rightarrow> pystr \<Rightarrow> bool" where
  "str_in word [] = (word = [])"
| "str_in word (c # cs) = (prefix word (c # cs) \<or> str_in word cs)"

text \<open>\<open>any(word in user_lower for word in words)\<close>, lines 83, 86, 89 and 92.\<close>

definition any_word_in :: "pystr list \<Rightarrow> pystr \<Rightarrow> bool" where
  "any_word_in words user_lower = list_ex (\<lambda>word. str_in word user_lower) words"

section \<open>The fallback responder\<close>

text \<open>The five string literals returned by \<open>_get_fallback_response\<close> (lines 84 to 96).\<close>

definition pasta_reply :: pystr where
  "pasta_reply = 0x1F35D # str '' Here's a simple pasta recipe: Cook pasta according to package directions. Meanwhile, heat olive oil in a pan, add garlic, then your favorite sauce. Toss with pasta and enjoy!''"

definition chicken_reply :: pystr where
  "chicken_reply = 0x1F414 # str '' For a quick chicken dish: Season chicken breast with salt, pepper, and herbs. Cook in a hot pan with oil for 6-7 minutes per side until golden and cooked through.''"

definition veggie_reply :: pystr where
  "veggie_reply = 0x1F957 # str '' Try a veggie stir-fry: Heat oil in a wok, add your favorite vegetables, stir-fry for 3-5 minutes, season with soy sauce and garlic. Serve over rice!''"

definition dessert_reply :: pystr where
  "dessert_reply = 0x1F370 # str '' Quick dessert idea: Mix 1 mug of flour, sugar, cocoa powder, baking powder, milk, and oil. Microwave for 90 seconds for a mug cake!''"

definition generic_reply :: pystr where
  "generic_reply = 0x1F468 # 0x200D # 0x1F373 # str '' I'm a recipe bot! I can help you with cooking ideas, recipes, and meal planning. What would you like to cook today? You can ask me about specific ingredients, dietary preferences, or types of cuisine!''"

text \<open>\<open>RecipeBot._get_fallback_response\<close> (lines 79 to 96), the \<open>if\<close>/\<open>elif\<close> chain kept in
  the order of the source.\<close>

definition get_fallback_response :: "(pystr \<Rightarrow> pystr) \<Rightarrow> pystr \<Rightarrow> pystr" where
  "get_fallback_response unicode_lower user_message =
     (let user_lower = str_lower unicode_lower user_message in
      if any_word_in [str ''pasta'', str ''spaghetti'', str ''noodles''] user_lower
        then pasta_reply
      else if any_word_in [str ''chicken'', str ''meat''] user_lower
        then chicken_reply
      else if any_word_in [str ''vegetarian'', str ''vegan'', str ''vegetables''] user_lower
        then veggie_reply
      else if any_word_in [str ''dessert'', str ''sweet'', str ''cake''] user_lower
        then dessert_reply
      else generic_reply)"

text \<open>
  The specification's reading of the responder: an ordered table of keyword sets with their
  replies, searched in priority order; the first set that matches gives the reply, and the
  generic reply is the default.
\<close>

definition keyword_table :: "(pystr list \<times> pystr) list" where
  "keyword_table =
     [([str ''pasta'', str ''spaghetti'', str ''noodles''], pasta_reply),
      ([str ''chicken'', str ''meat''], chicken_reply),
      ([str ''vegetarian'', str ''vegan'', str ''vegetables''], veggie_reply),
      ([str ''dessert'', str ''sweet'', str ''cake''], dessert_reply)]"

definition earliest_match_reply :: "(pystr \<Rightarrow> pystr) \<Rightarrow> pystr \<Rightarrow> pystr" where
  "earliest_match_reply unicode_lower utterance =
     (case find (\<lambda>entry. any_word_in (fst entry) (str_lower unicode_lower utterance))
             keyword_table of
        Some entry \<Rightarrow> snd entry
      | None \<Rightarrow> generic_reply)"

text \<open>The specification's reading of a match: some keyword of the set occurs in the
  text as a run of consecutive code points.\<close>

definition keyword_occurs :: "pystr list \<Rightarrow> pystr \<Rightarrow> bool" where
  "keyword_occurs keywords s = (\<exists>k. k \<in> set keywords \<and> (\<exists>before after. s = before @ k @ after))"

section \<open>Turns, requests and the collaborators\<close>

text \<open>
  A turn is the dictionary \<open>{"role": ..., "content": ...}\<close>. The program only ever
  builds such dictionaries and reads their two entries (lines 56, 60, 63, 120, 136); it never
  updates one in place, so a turn is a value.
\<close>

record turn =
  role :: pystr
  content :: pystr

text \<open>
  An exception raised by a collaborator and caught by \<open>except Exception as e\<close>;
  \<open>message\<close> is \<open>str(e)\<close>. Every error of the template engine and of the completion
  service is an instance of \<open>Exception\<close>; interrupts of the process (\<open>KeyboardInterrupt\<close>,
  \<open>SystemExit\<close>) are no errors of a collaborator and are not modelled.
\<close>

datatype exn = Exception (message: pystr)

text \<open>The keyword arguments of \<open>client.chat.completions.create\<close> (lines 66 to 71).\<close>

record request =
  model :: pystr
  messages :: "turn list"
  max_tokens :: int
  temperature :: real

text \<open>A completion: \<open>choices\<close> lists the \<open>message.content\<close> text of each choice.\<close>

record response =
  choices :: "pystr list"

record openai_client =
  api_key :: pystr

text \<open>\<open>st.warning\<close> and \<open>st.error\<close>: notices shown on the page; the script goes on.\<close>

datatype notice = Warning pystr | Error pystr

text \<open>\<open>class RecipeBot\<close>: the two attributes set by \<open>__init__\<close>.\<close>

record RecipeBot =
  client :: "openai_client option"
  system_prompt :: pystr

text \<open>
  Streamlit runs the script once per interaction. When a new interaction arrives while a run
  is under way, Streamlit stops that run at the next call into its API that the run reaches,
  before the call shows anything, and starts the next run. The stop is raised as an exception
  that is no instance of \<open>Exception\<close>, so the handlers of lines 37 and 75 do not catch it.
  The calls at which a run of \<open>recipe_bot.py\<close> can be stopped, in the order it reaches them:
  \<^item> \<open>Stop_at_config\<close>: \<open>st.set_page_config\<close> (line 12), before \<open>main\<close>;
  \<^item> \<open>Stop_at_warning\<close>: \<open>st.warning\<close> (line 39), inside the constructor called at line 102;
  \<^item> \<open>Stop_at_header\<close>: lines 109 to 118 (title, text, the messages drawn, the chat input);
  \<^item> \<open>Stop_at_user_echo\<close>: lines 123 to 128, after the user's turn was appended (line 120);
  \<^item> \<open>Stop_at_error\<close>: \<open>st.error\<close> (line 76), inside \<open>get_ai_response\<close>;
  \<^item> \<open>Stop_at_response\<close>: \<open>st.write(response)\<close> (line 133), before line 136;
  \<^item> \<open>Stop_at_sidebar\<close>: lines 139 to 146, before the button is looked at.

  \<open>No_stop\<close>: the run completes.
\<close>

datatype stop_site =
    No_stop
  | Stop_at_config
  | Stop_at_warning
  | Stop_at_header
  | Stop_at_user_echo
  | Stop_at_error
  | Stop_at_response
  | Stop_at_sidebar

text \<open>
  What lies outside the repository, as it behaves during one run of the script:
  the interpreter's Unicode case mapping, the process environment as \<open>os.getenv\<close> sees it
  (after the \<open>load_dotenv()\<close> of line 9, which runs again with every run of the script), the
  template engine (\<open>get_template\<close> gives the template's \<open>render\<close>, as a function of
  \<open>additional_context\<close>, or raises), the completion service, the two widgets of the
  page (\<open>st.chat_input\<close>, \<open>st.button\<close>), and the call at which Streamlit stops the run, if
  it does.
\<close>

record ext =
  unicode_lower :: "pystr \<Rightarrow> pystr"
  getenv :: "pystr \<Rightarrow> pystr option"
  get_template :: "pystr \<Rightarrow> exn + (pystr option \<Rightarrow> exn + pystr)"
  create :: "openai_client \<Rightarrow> request \<Rightarrow> exn + response"
  chat_input :: "pystr option"
  button :: bool
  stop :: stop_site

text \<open>
  The state the script acts on. Python lists are mutable objects, and the program appends
  to them (lines 60, 63, 120, 136): \<open>heap\<close> holds every list object, a reference is an
  index into it, and a new list is put at the end. \<open>calls\<close> logs the requests sent to the
  completion service, \<open>notices\<close> the warnings and errors shown, \<open>renders\<close> the
  \<open>additional_context\<close> of every \<open>template.render\<close>. \<open>session_bot\<close> and
  \<open>session_messages\<close> are the two keys of \<open>st.session_state\<close> (\<open>None\<close>: key not set).
\<close>

record world =
  heap :: "turn list list"
  calls :: "request list"
  notices :: "notice list"
  renders :: "pystr option list"
  session_bot :: "RecipeBot option"
  session_messages :: "nat option"

definition new_list :: "turn list \<Rightarrow> world \<Rightarrow> nat \<times> world" where
  "new_list xs w = (length (heap w), w\<lparr>heap := heap w @ [xs]\<rparr>)"

definition list_append :: "nat \<Rightarrow> turn \<Rightarrow> world \<Rightarrow> world" where
  "list_append a t w = w\<lparr>heap := (heap w)[a := heap w ! a @ [t]]\<rparr>"

definition deref :: "world \<Rightarrow> nat \<Rightarrow> turn list option" where
  "deref w a = (if a < length (heap w) then Some (heap w ! a) else None)"

text \<open>Truth value of an optional string: \<open>None\<close> and \<open>""\<close> are false.\<close>

definition truthy :: "pystr option \<Rightarrow> bool" where
  "truthy v = (case v of None \<Rightarrow> False | Some s \<Rightarrow> s \<noteq> [])"

section \<open>The prompt loader\<close>

definition default_prompt :: pystr where
  "default_prompt =
     str ''You are a helpful recipe bot assistant. You specialize in:'' @ [10] @
     str ''            - Suggesting recipes based on ingredients or dietary preferences'' @ [10] @
     str ''            - Providing cooking instructions and tips'' @ [10] @
     str ''            - Helping with meal planning'' @ [10] @
     str ''            - Answering cooking and nutrition questions'' @ [10] @
     str ''            '' @ [10] @
     str ''            Keep your responses helpful, friendly, and focused on recipes and cooking.''"

text \<open>
  \<open>RecipeBot._load_system_prompt\<close> (lines 28 to 46). Either step of the \<open>try\<close> block can
  raise; the handler shows a warning and returns the default prompt.
\<close>

definition load_system_prompt :: "ext \<Rightarrow> pystr option \<Rightarrow> world \<Rightarrow> pystr \<times> world" where
  "load_system_prompt x additional_context w =
     (case get_template x (str ''recipe_bot_prompt.j2'') of
        Inl e \<Rightarrow>
          (default_prompt,
           w\<lparr>notices := notices w @ [Warning (str ''Could not load prompt template: '' @ message e)]\<rparr>)
      | Inr render \<Rightarrow>
          (case render additional_context of
             Inl e \<Rightarrow>
               (default_prompt,
                w\<lparr>renders := renders w @ [additional_context],
                  notices := notices w @ [Warning (str ''Could not load prompt template: '' @ message e)]\<rparr>)
           | Inr prompt \<Rightarrow> (prompt, w\<lparr>renders := renders w @ [additional_context]\<rparr>)))"

section \<open>The orchestrator\<close>

text \<open>\<open>RecipeBot.__init__\<close> (lines 19 to 26).\<close>

definition RecipeBot_init :: "ext \<Rightarrow> world \<Rightarrow> RecipeBot \<times> world" where
  "RecipeBot_init x w =
     (let c = (if truthy (getenv x (str ''OPENAI_API_KEY''))
               then map_option (\<lambda>k. \<lparr>api_key = k\<rparr>) (getenv x (str ''OPENAI_API_KEY''))
               else None);
          (prompt, w') = load_system_prompt x None w
      in (\<lparr>client = c, system_prompt = prompt\<rparr>, w'))"

text \<open>
  The loop of lines 59 and 60. A Python list iterator keeps an index and reads the list
  again at every step, so the loop ends only when the index reaches the current length of
  \<open>conversation_history\<close>. \<open>None\<close>: the loop does not return (it would not end if it
  appended to the list it reads), or \<open>conversation_history\<close> refers to no list object, which
  Python excludes. The list \<open>messages\<close> of the source is \<open>msgs\<close> here.
\<close>

partial_function (option) history_loop :: "nat \<Rightarrow> nat \<Rightarrow> nat \<Rightarrow> world \<Rightarrow> world option" where
  "history_loop i conversation_history msgs w =
     (case deref w conversation_history of
        None \<Rightarrow> None
      | Some hist \<Rightarrow>
          if i < length hist
          then history_loop (Suc i) conversation_history msgs
                 (list_append msgs \<lparr>role = role (hist ! i), content = content (hist ! i)\<rparr> w)
          else Some w)"

declare history_loop.simps [code]

text \<open>
  \<open>RecipeBot.get_ai_response\<close> (lines 48 to 77). \<open>conversation_history\<close> is a reference to
  the caller's list. Everything from line 56 to line 73 is inside the \<open>try\<close>: an exception
  of the service, and the \<open>IndexError\<close> of \<open>response.choices[0]\<close> on an empty list, both
  reach the handler of lines 75 to 77.
\<close>

definition get_ai_response ::
    "ext \<Rightarrow> RecipeBot \<Rightarrow> pystr \<Rightarrow> nat \<Rightarrow> world \<Rightarrow> (pystr \<times> world) option" where
  "get_ai_response x self user_message conversation_history w =
     (case client self of
        None \<Rightarrow> Some (get_fallback_response (unicode_lower x) user_message, w)
      | Some c \<Rightarrow>
          (case new_list [\<lparr>role = str ''system'', content = system_prompt self\<rparr>] w of
             (msgs, w1) \<Rightarrow>
               (case history_loop 0 conversation_history msgs w1 of
                  None \<Rightarrow> None
                | Some w2 \<Rightarrow>
                    (let w3 = list_append msgs \<lparr>role = str ''user'', content = user_message\<rparr> w2;
                         req = \<lparr>model = str ''gpt-3.5-turbo'', messages = heap w3 ! msgs,
                                max_tokens = 500, temperature = 0.7\<rparr>;
                         w4 = w3\<lparr>calls := calls w3 @ [req]\<rparr>
                     in case create x c req of
                          Inl e \<Rightarrow>
                            Some (get_fallback_response (unicode_lower x) user_message,
                                  w4\<lparr>notices := notices w4 @
                                      [Error (str ''Error getting AI response: '' @ message e)]\<rparr>)
                        | Inr resp \<Rightarrow>
                            (case choices resp of
                               [] \<Rightarrow>
                                 Some (get_fallback_response (unicode_lower x) user_message,
                                       w4\<lparr>notices := notices w4 @
                                           [Error (str ''Error getting AI response: '' @
                                                   str ''list index out of range'')]\<rparr>)
                             | text # _ \<Rightarrow> Some (text, w4))))))"

text \<open>
  The specification's reading of the request: the system turn, then the history, then
  the user turn, with the fixed parameters.
\<close>

definition request_for :: "RecipeBot \<Rightarrow> pystr \<Rightarrow> turn list \<Rightarrow> request" where
  "request_for self user_message history =
     \<lparr>model = str ''gpt-3.5-turbo'',
      messages = [\<lparr>role = str ''system'', content = system_prompt self\<rparr>] @ history @
                 [\<lparr>role = str ''user'', content = user_message\<rparr>],
      max_tokens = 500, temperature = 0.7\<rparr>"

text \<open>
  A failed backend call: the service raises (network, authentication, quota), or its
  response is malformed and has no choice to read.
\<close>

definition backend_fails :: "ext \<Rightarrow> openai_client \<Rightarrow> request \<Rightarrow> bool" where
  "backend_fails x c req = (case create x c req of Inl e \<Rightarrow> True | Inr resp \<Rightarrow> choices resp = [])"

section \<open>The chat surface\<close>

text \<open>
  Lines 118 to 136 of \<open>main\<close>: the \<open>if\<close> on the chat input. \<open>st.session_state\<close> is read
  again at every access, as the source does. The slice \<open>messages[:-1]\<close> is a new list.
  \<open>None\<close>: the call does not return, or a key of the session state is not set or refers to
  no list object, which lines 101 to 106 and Python exclude.
\<close>

definition chat_step :: "ext \<Rightarrow> world \<Rightarrow> world option" where
  "chat_step x w =
     (if truthy (chat_input x) then
        (case (chat_input x, session_messages w) of
           (Some prompt, Some m) \<Rightarrow>
             (if m < length (heap w) then
                (let w1 = list_append m \<lparr>role = str ''user'', content = prompt\<rparr> w in
                 case (session_bot w1, session_messages w1) of
                   (Some b, Some m1) \<Rightarrow>
                     (case deref w1 m1 of
                        None \<Rightarrow> None
                      | Some ms \<Rightarrow>
                          (case new_list (butlast ms) w1 of
                             (history, w2) \<Rightarrow>
                               (case get_ai_response x b prompt history w2 of
                                  None \<Rightarrow> None
                                | Some (resp, w3) \<Rightarrow>
                                    (case session_messages w3 of
                                       None \<Rightarrow> None
                                     | Some m3 \<Rightarrow>
                                         if m3 < length (heap w3)
                                         then Some (list_append m3
                                                \<lparr>role = str ''assistant'', content = resp\<rparr> w3)
                                         else None))))
                 | _ \<Rightarrow> None)
              else None)
         | _ \<Rightarrow> None)
      else Some w)"

text \<open>
  One run of \<open>main\<close> (lines 99 to 148) that completes. \<open>st.rerun()\<close> is the last
  statement and ends the run. Drawing the page (titles, the messages, the sidebar text)
  changes nothing the claims speak of and is left out.
\<close>

definition main :: "ext \<Rightarrow> world \<Rightarrow> world option" where
  "main x w0 =
     (let w1 = (case session_bot w0 of
                  Some b \<Rightarrow> w0
                | None \<Rightarrow> (case RecipeBot_init x w0 of (b, w) \<Rightarrow> w\<lparr>session_bot := Some b\<rparr>));
          w2 = (case session_messages w1 of
                  Some m \<Rightarrow> w1
                | None \<Rightarrow> (case new_list [] w1 of (m, w) \<Rightarrow> w\<lparr>session_messages := Some m\<rparr>))
      in case chat_step x w2 of
           None \<Rightarrow> None
         | Some w3 \<Rightarrow>
             Some (if button x
                   then (case new_list [] w3 of (m, w) \<Rightarrow> w\<lparr>session_messages := Some m\<rparr>)
                   else w3))"

text \<open>
  What a run that is stopped has done. Lines 101 to 106, the two keys of the session state:
\<close>

definition session_init :: "ext \<Rightarrow> world \<Rightarrow> world" where
  "session_init x w0 =
     (let w1 = (case session_bot w0 of
                  Some b \<Rightarrow> w0
                | None \<Rightarrow> (case RecipeBot_init x w0 of (b, w) \<Rightarrow> w\<lparr>session_bot := Some b\<rparr>))
      in case session_messages w1 of
           Some m \<Rightarrow> w1
         | None \<Rightarrow> (case new_list [] w1 of (m, w) \<Rightarrow> w\<lparr>session_messages := Some m\<rparr>))"

text \<open>Line 120, the append of the user's turn.\<close>

definition user_turn :: "ext \<Rightarrow> world \<Rightarrow> world option" where
  "user_turn x w =
     (case (chat_input x, session_messages w) of
        (Some prompt, Some m) \<Rightarrow>
          if m < length (heap w)
          then Some (list_append m \<lparr>role = str ''user'', content = prompt\<rparr> w)
          else None
      | _ \<Rightarrow> None)"

text \<open>Lines 129 to 132, the call of \<open>get_ai_response\<close> on the slice of the history.\<close>

definition response_call :: "ext \<Rightarrow> world \<Rightarrow> (pystr \<times> world) option" where
  "response_call x w1 =
     (case (chat_input x, session_bot w1, session_messages w1) of
        (Some prompt, Some b, Some m1) \<Rightarrow>
          (case deref w1 m1 of
             None \<Rightarrow> None
           | Some ms \<Rightarrow>
               (case new_list (butlast ms) w1 of
                  (history, w2) \<Rightarrow> get_ai_response x b prompt history w2))
      | _ \<Rightarrow> None)"

text \<open>
  The prompt loader stopped at \<open>st.warning\<close> (line 39): the state at that call, with no
  warning shown. \<open>None\<close>: the loader does not reach the call.
\<close>

definition load_system_prompt_stopped :: "ext \<Rightarrow> pystr option \<Rightarrow> world \<Rightarrow> world option" where
  "load_system_prompt_stopped x additional_context w =
     (case get_template x (str ''recipe_bot_prompt.j2'') of
        Inl e \<Rightarrow> Some w
      | Inr render \<Rightarrow>
          (case render additional_context of
             Inl e \<Rightarrow> Some (w\<lparr>renders := renders w @ [additional_context]\<rparr>)
           | Inr prompt \<Rightarrow> None))"

text \<open>
  \<open>get_ai_response\<close> stopped at \<open>st.error\<close> (line 76): the state at that call, with the
  request sent and no error shown. \<open>None\<close>: the call does not reach the handler.
\<close>

definition get_ai_response_stopped ::
    "ext \<Rightarrow> RecipeBot \<Rightarrow> pystr \<Rightarrow> nat \<Rightarrow> world \<Rightarrow> world option" where
  "get_ai_response_stopped x self user_message conversation_history w =
     (case client self of
        None \<Rightarrow> None
      | Some c \<Rightarrow>
          (case new_list [\<lparr>role = str ''system'', content = system_prompt self\<rparr>] w of
             (msgs, w1) \<Rightarrow>
               (case history_loop 0 conversation_history msgs w1 of
                  None \<Rightarrow> None
                | Some w2 \<Rightarrow>
                    (let w3 = list_append msgs \<lparr>role = str ''user'', content = user_message\<rparr> w2;
                         req = \<lparr>model = str ''gpt-3.5-turbo'', messages = heap w3 ! msgs,
                                max_tokens = 500, temperature = 0.7\<rparr>;
                         w4 = w3\<lparr>calls := calls w3 @ [req]\<rparr>
                     in if backend_fails x c req then Some w4 else None))))"

definition error_site :: "ext \<Rightarrow> world \<Rightarrow> world option" where
  "error_site x w1 =
     (case (chat_input x, session_bot w1, session_messages w1) of
        (Some prompt, Some b, Some m1) \<Rightarrow>
          (case deref w1 m1 of
             None \<Rightarrow> None
           | Some ms \<Rightarrow>
               (case new_list (butlast ms) w1 of
                  (history, w2) \<Rightarrow> get_ai_response_stopped x b prompt history w2))
      | _ \<Rightarrow> None)"

text \<open>
  One run of the script, stopped where \<open>stop x\<close> says. A run that does not reach that call
  (no chat input, no failure to report) completes.
\<close>

definition script_run :: "ext \<Rightarrow> world \<Rightarrow> world option" where
  "script_run x w =
     (case stop x of
        No_stop \<Rightarrow> main x w
      | Stop_at_config \<Rightarrow> Some w
      | Stop_at_warning \<Rightarrow>
          (case session_bot w of
             Some b \<Rightarrow> main x w
           | None \<Rightarrow>
               (case load_system_prompt_stopped x None w of
                  Some w' \<Rightarrow> Some w'
                | None \<Rightarrow> main x w))
      | Stop_at_header \<Rightarrow> Some (session_init x w)
      | Stop_at_user_echo \<Rightarrow>
          (if truthy (chat_input x) then user_turn x (session_init x w) else main x w)
      | Stop_at_error \<Rightarrow>
          (if truthy (chat_input x) then
             (case user_turn x (session_init x w) of
                None \<Rightarrow> None
              | Some w1 \<Rightarrow>
                  (case error_site x w1 of Some w' \<Rightarrow> Some w' | None \<Rightarrow> main x w))
           else main x w)
      | Stop_at_response \<Rightarrow>
          (if truthy (chat_input x) then
             (case user_turn x (session_init x w) of
                None \<Rightarrow> None
              | Some w1 \<Rightarrow> map_option snd (response_call x w1))
           else main x w)
      | Stop_at_sidebar \<Rightarrow> chat_step x (session_init x w))"

text \<open>A session: the script run once for each interaction, stopped or not, from an empty
  session state.\<close>

definition init_world :: world where
  "init_world = \<lparr>heap = [], calls = [], notices = [], renders = [],
                 session_bot = None, session_messages = None\<rparr>"

fun run :: "ext list \<Rightarrow> world \<Rightarrow> world option" where
  "run [] w = Some w"
| "run (x # xs) w = (case script_run x w of None \<Rightarrow> None | Some w' \<Rightarrow> run xs w')"

text \<open>The history the page shows: the list \<open>st.session_state.messages\<close> refers to.\<close>

definition history_of :: "world \<Rightarrow> turn list" where
  "history_of w = (case session_messages w of None \<Rightarrow> [] | Some m \<Rightarrow> heap w ! m)"

text \<open>A session state is well formed when \<open>st.session_state.messages\<close>, once set, refers
  to a list object.\<close>

definition session_ok :: "world \<Rightarrow> bool" where
  "session_ok w = (case session_messages w of None \<Rightarrow> True | Some m \<Rightarrow> m < length (heap w))"

text \<open>The roles of a history alternate: user at the even positions (counted from 0),
  assistant at the odd ones.\<close>

definition alternating :: "turn list \<Rightarrow> bool" where
  "alternating h =
     (\<forall>i<length h. role (h ! i) = (if even i then str ''user'' else str ''assistant''))"

text \<open>Every turn of a history is a user turn, or an assistant turn that directly follows a
  user turn: the history is made of user turns, each with at most one answer.\<close>

definition answers_follow_user :: "turn list \<Rightarrow> bool" where
  "answers_follow_user h =
     (\<forall>i<length h. role (h ! i) = str ''user'' \<or>
        (role (h ! i) = str ''assistant'' \<and> 0 < i \<and> role (h ! (i - 1)) = str ''user''))"

section \<open>Example collaborators\<close>

text \<open>A run with no credential, no template on disk and no reachable service.\<close>

definition offline :: ext where
  "offline = \<lparr>unicode_lower = (\<lambda>s. s), getenv = (\<lambda>name. None),
              get_template = (\<lambda>name. Inl (Exception name)),
              create = (\<lambda>c req. Inl (Exception (str ''Connection error.''))),
              chat_input = None, button = False, stop = No_stop\<rparr>"

text \<open>A run with a credential, a template that renders, and a service that answers.\<close>

definition online :: ext where
  "online = \<lparr>unicode_lower = (\<lambda>s. s),
             getenv = (\<lambda>name. if name = str ''OPENAI_API_KEY'' then Some (str ''sk-test'') else None),
             get_template = (\<lambda>name. Inr (\<lambda>additional_context. Inr (str ''You are a recipe bot.''))),
             create = (\<lambda>c req. Inr \<lparr>choices = [str ''Try a risotto.'']\<rparr>),
             chat_input = None, button = False, stop = No_stop\<rparr>"

definition example_bot :: RecipeBot where
  "example_bot = \<lparr>client = Some \<lparr>api_key = str ''sk-test''\<rparr>,
                  system_prompt = str ''You are a recipe bot.''\<rparr>"

text \<open>A state with one list object, a history of two turns.\<close>

definition example_world :: world where
  "example_world =
     init_world\<lparr>heap := [[\<lparr>role = str ''user'', content = str ''hello''\<rparr>,
                          \<lparr>role = str ''assistant'', content = str ''hi''\<rparr>]]\<rparr>"

section \<open>Strings, and the loop over the history\<close>

lemma str_in_sublist: "str_in word s = sublist word s"
  by (induction s) (auto simp: sublist_Cons_right)

lemma any_word_in_occurs: "any_word_in ks s = keyword_occurs ks s"
  by (auto simp: any_word_in_def keyword_occurs_def list_ex_iff str_in_sublist sublist_def)

lemma turn_rebuild [simp]: "\<lparr>role = role t, content = content t\<rparr> = (t::turn)"
  by (cases t) simp

lemma history_loop_copies:
  assumes "c < length (heap w)" "m < length (heap w)" "m \<noteq> c" "i \<le> length (heap w ! c)"
  shows "history_loop i c m w = Some (w\<lparr>heap := (heap w)[m := heap w ! m @ drop i (heap w ! c)]\<rparr>)"
  using assms
proof (induction "length (heap w ! c) - i" arbitrary: i w)
  case 0
  then show ?case
    by (subst history_loop.simps) (simp add: deref_def)
next
  case (Suc n)
  let ?t = "heap w ! c ! i"
  let ?w = "list_append m ?t w"
  from Suc.hyps(2) have lt: "i < length (heap w ! c)" by simp
  have c: "heap ?w ! c = heap w ! c" and len: "length (heap ?w) = length (heap w)"
    using Suc.prems by (simp_all add: list_append_def)
  have "history_loop (Suc i) c m ?w =
          Some (?w\<lparr>heap := (heap ?w)[m := heap ?w ! m @ drop (Suc i) (heap ?w ! c)]\<rparr>)"
    using Suc.hyps(2) Suc.prems lt by (intro Suc.hyps(1)) (simp_all add: c len)
  also have "\<dots> = Some (w\<lparr>heap := (heap w)[m := heap w ! m @ drop i (heap w ! c)]\<rparr>)"
  proof -
    have "drop i (heap w ! c) = ?t # drop (Suc i) (heap w ! c)"
      using lt by (simp add: Cons_nth_drop_Suc)
    then show ?thesis
      using Suc.prems by (simp add: list_append_def)
  qed
  finally show ?case
    using lt Suc.prems by (subst history_loop.simps) (simp add: deref_def)
qed


lemma get_ai_response_backend:
  assumes "client self = Some c" "h < length (heap w)"
  shows "get_ai_response x self u h w =
     (let req = request_for self u (heap w ! h);
          w4 = w\<lparr>heap := heap w @ [messages req], calls := calls w @ [req]\<rparr>
      in case create x c req of
           Inl e \<Rightarrow>
             Some (get_fallback_response (unicode_lower x) u,
                   w4\<lparr>notices := notices w @
                       [Error (str ''Error getting AI response: '' @ message e)]\<rparr>)
         | Inr resp \<Rightarrow>
             (case choices resp of
                [] \<Rightarrow>
                  Some (get_fallback_response (unicode_lower x) u,
                        w4\<lparr>notices := notices w @
                            [Error (str ''Error getting AI response: '' @
                                    str ''list index out of range'')]\<rparr>)
              | t # _ \<Rightarrow> Some (t, w4)))"
proof -
  let ?sys = "\<lparr>role = str ''system'', content = system_prompt self\<rparr>"
  let ?w1 = "w\<lparr>heap := heap w @ [[?sys]]\<rparr>"
  have "history_loop 0 h (length (heap w)) ?w1 =
          Some (?w1\<lparr>heap := (heap ?w1)[length (heap w) := heap ?w1 ! length (heap w) @
                                   drop 0 (heap ?w1 ! h)]\<rparr>)"
    using assms(2) by (intro history_loop_copies) simp_all
  then have loop: "history_loop 0 h (length (heap w)) ?w1 =
          Some (w\<lparr>heap := heap w @ [?sys # heap w ! h]\<rparr>)"
    using assms(2) by (simp add: nth_append)
  show ?thesis
    using assms(1)
    by (simp add: get_ai_response_def new_list_def loop list_append_def request_for_def Let_def
             split: sum.splits list.splits)
qed

section \<open>The orchestrator: one call\<close>

lemma no_credential_client:
  "\<not> truthy (getenv x (str ''OPENAI_API_KEY'')) \<Longrightarrow> client (fst (RecipeBot_init x w)) = None"
  by (simp add: RecipeBot_init_def split: prod.splits)

text \<open>
  Claim C1. When the orchestrator was constructed from an environment with no API
  credential (the variable unset or empty), its client is \<open>None\<close>, and for every user message,
  every history reference and every state, \<open>get_ai_response\<close> returns exactly the fallback
  response for the message and leaves the state as it was: no request is logged in \<open>calls\<close>,
  so no backend call was made.
\<close>

theorem get_ai_response_no_credential:
  assumes "\<not> truthy (getenv x0 (str ''OPENAI_API_KEY''))"
  shows "client (fst (RecipeBot_init x0 w0)) = None \<and>
         get_ai_response x (fst (RecipeBot_init x0 w0)) user_message conversation_history w =
           Some (get_fallback_response (unicode_lower x) user_message, w)"
  using assms by (simp add: get_ai_response_def no_credential_client)

lemma fallback_vegan_spaghetti: "get_fallback_response (\<lambda>s. s) (str ''vegan spaghetti'') = pasta_reply"
  by (simp add: get_fallback_response_def str_lower_def any_word_in_def str_def ascii_lower_def)

theorem get_ai_response_no_credential_witness:
  "\<not> truthy (getenv offline (str ''OPENAI_API_KEY'')) \<and>
   get_ai_response online (fst (RecipeBot_init offline init_world)) (str ''vegan spaghetti'') 0
       example_world = Some (pasta_reply, example_world)"
  using get_ai_response_no_credential [of offline init_world online "str ''vegan spaghetti''" 0 example_world]
  by (simp add: offline_def online_def truthy_def fallback_vegan_spaghetti)

text \<open>
  Claim C2. With a credential, when the backend call fails (the service raises, whatever
  the exception, or the response has no choice), \<open>get_ai_response\<close> still returns: it shows one
  error notice, returns exactly the fallback response for the message, which is the value the
  orchestrator without a credential returns for that message, and has sent exactly one request
  (no retry).
\<close>

theorem backend_failure_falls_back:
  assumes "client self = Some c" and "conversation_history < length (heap w)"
    and "backend_fails x c (request_for self user_message (heap w ! conversation_history))"
  shows "\<exists>w' reason.
           get_ai_response x self user_message conversation_history w =
             Some (get_fallback_response (unicode_lower x) user_message, w') \<and>
           notices w' = notices w @ [Error (str ''Error getting AI response: '' @ reason)] \<and>
           calls w' = calls w @ [request_for self user_message (heap w ! conversation_history)] \<and>
           get_ai_response x (self\<lparr>client := None\<rparr>) user_message conversation_history w =
             Some (get_fallback_response (unicode_lower x) user_message, w)"
  using assms
  by (auto simp: get_ai_response_backend backend_fails_def Let_def get_ai_response_def [of x "self\<lparr>client := None\<rparr>"]
           split: sum.splits list.splits)

text \<open>
  Claim C3. On the backend path the call returns, and the one request it sends has the message
  list system turn (with the stored system prompt), then the history in its order, then the user
  turn, with \<open>max_tokens = 500\<close> and \<open>temperature = 0.7\<close>; when the service answers with a
  completion, the text of its first (for a single completion: its only) choice is returned
  unchanged.
\<close>

theorem request_assembly:
  assumes "client self = Some c" and "conversation_history < length (heap w)"
  shows "\<exists>r w'.
           get_ai_response x self user_message conversation_history w = Some (r, w') \<and>
           calls w' = calls w @
             [\<lparr>model = str ''gpt-3.5-turbo'',
               messages = [\<lparr>role = str ''system'', content = system_prompt self\<rparr>] @
                          heap w ! conversation_history @
                          [\<lparr>role = str ''user'', content = user_message\<rparr>],
               max_tokens = 500, temperature = 0.7\<rparr>] \<and>
           (\<forall>resp completion rest.
              create x c (request_for self user_message (heap w ! conversation_history)) = Inr resp \<and>
              choices resp = completion # rest \<longrightarrow> r = completion)"
  using assms
  by (auto simp: get_ai_response_backend Let_def request_for_def split: sum.splits list.splits)

text \<open>
  Claim C5. For every user message and every history that is a list object,
  \<open>get_ai_response\<close> returns, on each of its paths, and every list object that existed before the
  call has the same content afterwards (the old heap is a prefix of the new one); in particular the
  history has the same turns in the same order, and nothing was appended to it.
\<close>

theorem history_unchanged:
  assumes "conversation_history < length (heap w)"
  shows "\<exists>r w'.
           get_ai_response x self user_message conversation_history w = Some (r, w') \<and>
           prefix (heap w) (heap w') \<and>
           heap w' ! conversation_history = heap w ! conversation_history"
proof (cases "client self")
  case None
  then show ?thesis by (simp add: get_ai_response_def)
next
  case (Some c)
  then show ?thesis
    using assms
    by (auto simp: get_ai_response_backend Let_def nth_append split: sum.splits list.splits)
qed

text \<open>
  Claim C6. When the template cannot be found or its rendering raises, the prompt loader
  does not raise: it returns the built-in default prompt and adds one warning notice carrying
  the exception's text.
\<close>

theorem prompt_load_failure_recovers:
  assumes "get_template x (str ''recipe_bot_prompt.j2'') = Inl e \<or>
           (\<exists>render. get_template x (str ''recipe_bot_prompt.j2'') = Inr render \<and>
                     render additional_context = Inl e)"
  shows "fst (load_system_prompt x additional_context w) = default_prompt \<and>
         notices (snd (load_system_prompt x additional_context w)) =
           notices w @ [Warning (str ''Could not load prompt template: '' @ message e)]"
  using assms by (auto simp: load_system_prompt_def)

section \<open>What a call, the constructor and an interaction leave unchanged\<close>

lemma get_ai_response_frame:
  assumes "h < length (heap w)"
  shows "\<exists>r w' new. get_ai_response x self u h w = Some (r, w') \<and>
           heap w' = heap w @ new \<and>
           session_bot w' = session_bot w \<and> session_messages w' = session_messages w \<and>
           renders w' = renders w"
proof (cases "client self")
  case None
  then show ?thesis by (simp add: get_ai_response_def)
next
  case (Some c)
  then show ?thesis
    using assms
    by (auto simp: get_ai_response_backend Let_def split: sum.splits list.splits)
qed

lemma RecipeBot_init_frame:
  "heap (snd (RecipeBot_init x w)) = heap w \<and>
   session_bot (snd (RecipeBot_init x w)) = session_bot w \<and>
   session_messages (snd (RecipeBot_init x w)) = session_messages w \<and>
   (\<exists>n. renders (snd (RecipeBot_init x w)) = renders w @ replicate n None)"
proof -
  have "renders w @ [None] = renders w @ replicate 1 None" and "renders w = renders w @ replicate 0 None"
    by simp_all
  then show ?thesis
    by (auto simp: RecipeBot_init_def load_system_prompt_def split: sum.splits prod.splits
             simp del: replicate.simps replicate_Suc)
qed

lemma chat_step_idle: "\<not> truthy (chat_input x) \<Longrightarrow> chat_step x w = Some w"
  by (simp add: chat_step_def)

lemma chat_step_interaction:
  assumes "chat_input x = Some prompt" "prompt \<noteq> []"
    and "session_bot w = Some b" "session_messages w = Some m" "m < length (heap w)"
  shows "\<exists>r w' new. chat_step x w = Some w' \<and>
           heap w' = (heap w)[m := heap w ! m @ [\<lparr>role = str ''user'', content = prompt\<rparr>,
                                                  \<lparr>role = str ''assistant'', content = r\<rparr>]] @ new \<and>
           session_bot w' = session_bot w \<and> session_messages w' = session_messages w \<and>
           renders w' = renders w"
proof -
  let ?u = "\<lparr>role = str ''user'', content = prompt\<rparr>"
  let ?w1 = "list_append m ?u w"
  let ?w2 = "?w1\<lparr>heap := heap ?w1 @ [butlast (heap ?w1 ! m)]\<rparr>"
  have len1: "length (heap ?w1) = length (heap w)" by (simp add: list_append_def)
  have "length (heap ?w1) < length (heap ?w2)" by simp
  from get_ai_response_frame [OF this, of x b prompt]
  obtain r w3 new where g: "get_ai_response x b prompt (length (heap ?w1)) ?w2 = Some (r, w3)"
    and h3: "heap w3 = heap ?w2 @ new" and s3: "session_bot w3 = session_bot ?w2"
      "session_messages w3 = session_messages ?w2" "renders w3 = renders ?w2"
    by blast
  have "chat_step x w = Some (list_append m \<lparr>role = str ''assistant'', content = r\<rparr> w3)"
    using assms g h3 s3
    by (simp add: chat_step_def truthy_def deref_def new_list_def list_append_def)
  moreover have "heap (list_append m \<lparr>role = str ''assistant'', content = r\<rparr> w3) =
      (heap w)[m := heap w ! m @ [?u, \<lparr>role = str ''assistant'', content = r\<rparr>]] @
      ([butlast (heap ?w1 ! m)] @ new)"
    using assms(5) h3 by (simp add: list_append_def list_update_append nth_append)
  ultimately show ?thesis
    using s3 assms by (fastforce simp: list_append_def)
qed

section \<open>One run of the script\<close>

lemma main_step:
  assumes ok: "session_ok w"
  shows "\<exists>w'. main x w = Some w' \<and> session_ok w' \<and>
     session_bot w' = Some (case session_bot w of Some b \<Rightarrow> b | None \<Rightarrow> fst (RecipeBot_init x w)) \<and>
     (\<exists>n. renders w' = renders w @ replicate n None) \<and>
     (if button x then history_of w' = []
      else if truthy (chat_input x)
        then \<exists>r. history_of w' = history_of w @
                    [\<lparr>role = str ''user'', content = the (chat_input x)\<rparr>,
                     \<lparr>role = str ''assistant'', content = r\<rparr>]
      else history_of w' = history_of w)"
proof -
  define w1 where "w1 = (case session_bot w of Some b \<Rightarrow> w
      | None \<Rightarrow> (case RecipeBot_init x w of (b, v) \<Rightarrow> v\<lparr>session_bot := Some b\<rparr>))"
  define w2 where "w2 = (case session_messages w1 of Some m \<Rightarrow> w1
      | None \<Rightarrow> (case new_list [] w1 of (m, v) \<Rightarrow> v\<lparr>session_messages := Some m\<rparr>))"
  define b where "b = (case session_bot w of Some b \<Rightarrow> b | None \<Rightarrow> fst (RecipeBot_init x w))"
  have m_eq: "main x w = (case chat_step x w2 of None \<Rightarrow> None
      | Some w3 \<Rightarrow> Some (if button x
           then (case new_list [] w3 of (m, v) \<Rightarrow> v\<lparr>session_messages := Some m\<rparr>) else w3))"
    unfolding main_def Let_def w2_def w1_def by (rule refl)
  from RecipeBot_init_frame [of x w] obtain n0 where
    r0: "renders (snd (RecipeBot_init x w)) = renders w @ replicate n0 None" by blast
  have w1: "heap w1 = heap w" "session_messages w1 = session_messages w" "session_bot w1 = Some b"
    using RecipeBot_init_frame [of x w]
    by (auto simp: w1_def b_def split: option.splits prod.splits)
  have r1: "\<exists>n. renders w1 = renders w @ replicate n None"
  proof (cases "session_bot w")
    case None
    then show ?thesis using r0 by (auto simp: w1_def split: prod.splits)
  next
    case (Some a)
    then have "renders w1 = renders w @ replicate 0 None" by (simp add: w1_def)
    then show ?thesis by blast
  qed
  obtain m where w2: "session_messages w2 = Some m" "m < length (heap w2)"
      "heap w2 ! m = history_of w" "session_bot w2 = Some b" "renders w2 = renders w1"
    using ok w1
    by (cases "session_messages w")
       (auto simp: w2_def session_ok_def history_of_def new_list_def)
  have ok_new: "\<And>v. session_ok (case new_list [] v of (m, u) \<Rightarrow> u\<lparr>session_messages := Some m\<rparr>) \<and>
      history_of (case new_list [] v of (m, u) \<Rightarrow> u\<lparr>session_messages := Some m\<rparr>) = [] \<and>
      session_bot (case new_list [] v of (m, u) \<Rightarrow> u\<lparr>session_messages := Some m\<rparr>) = session_bot v \<and>
      renders (case new_list [] v of (m, u) \<Rightarrow> u\<lparr>session_messages := Some m\<rparr>) = renders v"
    by (simp add: new_list_def session_ok_def history_of_def)
  show ?thesis
  proof (cases "truthy (chat_input x)")
    case False
    then have "chat_step x w2 = Some w2" by (rule chat_step_idle)
    then show ?thesis
      using False w2 r1 ok_new [of w2]
      by (auto simp: m_eq b_def [symmetric] session_ok_def history_of_def)
  next
    case True
    then obtain prompt where p: "chat_input x = Some prompt" "prompt \<noteq> []"
      by (auto simp: truthy_def split: option.splits)
    from chat_step_interaction [OF p w2(4) w2(1) w2(2)]
    obtain r w3 new where c: "chat_step x w2 = Some w3"
      and h3: "heap w3 = (heap w2)[m := heap w2 ! m @ [\<lparr>role = str ''user'', content = prompt\<rparr>,
                 \<lparr>role = str ''assistant'', content = r\<rparr>]] @ new"
      and s3: "session_bot w3 = session_bot w2" "session_messages w3 = session_messages w2"
        "renders w3 = renders w2"
      by blast
    have hist3: "history_of w3 = history_of w @ [\<lparr>role = str ''user'', content = prompt\<rparr>,
                 \<lparr>role = str ''assistant'', content = r\<rparr>]"
      using w2 h3 s3 by (simp add: history_of_def nth_append)
    have ok3: "session_ok w3"
      using w2 h3 s3 by (simp add: session_ok_def)
    show ?thesis
      using True p c hist3 ok3 s3 w2 r1 ok_new [of w3]
      by (auto simp: m_eq b_def [symmetric])
  qed
qed

section \<open>A run that is stopped\<close>


lemma chat_step_phases:
  "chat_step x w =
     (if truthy (chat_input x) then
        (case user_turn x w of
           None \<Rightarrow> None
         | Some w1 \<Rightarrow>
             (case response_call x w1 of
                None \<Rightarrow> None
              | Some (resp, w3) \<Rightarrow>
                  (case session_messages w3 of
                     None \<Rightarrow> None
                   | Some m3 \<Rightarrow>
                       if m3 < length (heap w3)
                       then Some (list_append m3 \<lparr>role = str ''assistant'', content = resp\<rparr> w3)
                       else None)))
      else Some w)"
  by (auto simp: chat_step_def user_turn_def response_call_def Let_def list_append_def
           split: option.splits prod.splits)

lemma script_run_complete: "stop x = No_stop \<Longrightarrow> script_run x w = main x w"
  by (simp add: script_run_def)

lemma session_init_facts:
  assumes "session_ok w"
  shows "\<exists>m n. session_messages (session_init x w) = Some m \<and>
           m < length (heap (session_init x w)) \<and>
           heap (session_init x w) ! m = history_of w \<and>
           session_bot (session_init x w) =
             Some (case session_bot w of Some b \<Rightarrow> b | None \<Rightarrow> fst (RecipeBot_init x w)) \<and>
           renders (session_init x w) = renders w @ replicate n None"
proof -
  define w1 where "w1 = (case session_bot w of Some b \<Rightarrow> w
      | None \<Rightarrow> (case RecipeBot_init x w of (b, v) \<Rightarrow> v\<lparr>session_bot := Some b\<rparr>))"
  define b where "b = (case session_bot w of Some b \<Rightarrow> b | None \<Rightarrow> fst (RecipeBot_init x w))"
  have i: "session_init x w = (case session_messages w1 of Some m \<Rightarrow> w1
      | None \<Rightarrow> (case new_list [] w1 of (m, v) \<Rightarrow> v\<lparr>session_messages := Some m\<rparr>))"
    unfolding session_init_def Let_def w1_def by (rule refl)
  from RecipeBot_init_frame [of x w] obtain n0 where
    r0: "renders (snd (RecipeBot_init x w)) = renders w @ replicate n0 None" by blast
  have w1: "heap w1 = heap w" "session_messages w1 = session_messages w" "session_bot w1 = Some b"
    using RecipeBot_init_frame [of x w]
    by (auto simp: w1_def b_def split: option.splits prod.splits)
  have r1: "\<exists>n. renders w1 = renders w @ replicate n None"
  proof (cases "session_bot w")
    case None
    then show ?thesis using r0 by (auto simp: w1_def split: prod.splits)
  next
    case (Some a)
    then have "renders w1 = renders w @ replicate 0 None" by (simp add: w1_def)
    then show ?thesis by blast
  qed
  have "\<exists>m. session_messages (session_init x w) = Some m \<and>
           m < length (heap (session_init x w)) \<and>
           heap (session_init x w) ! m = history_of w \<and>
           session_bot (session_init x w) = Some b \<and>
           renders (session_init x w) = renders w1"
    using assms w1
    by (cases "session_messages w")
       (auto simp: i session_ok_def history_of_def new_list_def)
  then show ?thesis
    using r1 by (auto simp: b_def)
qed

lemma get_ai_response_stopped_frame:
  assumes "h < length (heap w)" and "get_ai_response_stopped x self u h w = Some w'"
  shows "\<exists>new. heap w' = heap w @ new \<and>
           session_bot w' = session_bot w \<and> session_messages w' = session_messages w \<and>
           renders w' = renders w"
proof -
  from assms(2) obtain c where c: "client self = Some c"
    by (auto simp: get_ai_response_stopped_def split: option.splits)
  let ?sys = "\<lparr>role = str ''system'', content = system_prompt self\<rparr>"
  let ?w1 = "w\<lparr>heap := heap w @ [[?sys]]\<rparr>"
  have "history_loop 0 h (length (heap w)) ?w1 =
          Some (?w1\<lparr>heap := (heap ?w1)[length (heap w) := heap ?w1 ! length (heap w) @
                                   drop 0 (heap ?w1 ! h)]\<rparr>)"
    using assms(1) by (intro history_loop_copies) simp_all
  then have loop: "history_loop 0 h (length (heap w)) ?w1 =
          Some (w\<lparr>heap := heap w @ [?sys # heap w ! h]\<rparr>)"
    using assms(1) by (simp add: nth_append)
  show ?thesis
    using assms(2) c
    by (auto simp: get_ai_response_stopped_def new_list_def loop list_append_def Let_def
             split: if_splits)
qed

lemma user_turn_appends:
  assumes "chat_input x = Some prompt" "session_messages w = Some m" "m < length (heap w)"
  shows "user_turn x w = Some (list_append m \<lparr>role = str ''user'', content = prompt\<rparr> w)"
  using assms by (simp add: user_turn_def)

lemma response_call_frame:
  assumes "chat_input x = Some prompt" "session_bot w = Some b" "session_messages w = Some m"
    and "m < length (heap w)"
  shows "\<exists>r w' new. response_call x w = Some (r, w') \<and> heap w' = heap w @ new \<and>
           session_bot w' = session_bot w \<and> session_messages w' = session_messages w \<and>
           renders w' = renders w"
proof -
  let ?w2 = "w\<lparr>heap := heap w @ [butlast (heap w ! m)]\<rparr>"
  have "length (heap w) < length (heap ?w2)" by simp
  from get_ai_response_frame [OF this, of x b prompt]
  obtain r w3 new where "get_ai_response x b prompt (length (heap w)) ?w2 = Some (r, w3)"
    and "heap w3 = heap ?w2 @ new" and "session_bot w3 = session_bot ?w2"
      "session_messages w3 = session_messages ?w2" "renders w3 = renders ?w2"
    by blast
  then show ?thesis
    using assms by (simp add: response_call_def deref_def new_list_def)
qed

lemma error_site_frame:
  assumes "session_messages w = Some m" "m < length (heap w)" "error_site x w = Some w'"
  shows "\<exists>new. heap w' = heap w @ new \<and>
           session_bot w' = session_bot w \<and> session_messages w' = session_messages w \<and>
           renders w' = renders w"
proof -
  let ?w2 = "w\<lparr>heap := heap w @ [butlast (heap w ! m)]\<rparr>"
  from assms obtain prompt b where
    g: "get_ai_response_stopped x b prompt (length (heap w)) ?w2 = Some w'"
    by (auto simp: error_site_def deref_def new_list_def split: option.splits)
  have "length (heap w) < length (heap ?w2)" by simp
  from get_ai_response_stopped_frame [OF this g] show ?thesis
    by auto
qed

lemma main_step_outcome:
  assumes "session_ok w"
  shows "\<exists>w'. main x w = Some w' \<and> session_ok w' \<and>
     (\<forall>b. session_bot w = Some b \<longrightarrow> session_bot w' = Some b) \<and>
     (\<exists>n. renders w' = renders w @ replicate n None) \<and>
     (history_of w' = [] \<or> history_of w' = history_of w \<or>
      history_of w' = history_of w @ [\<lparr>role = str ''user'', content = the (chat_input x)\<rparr>] \<or>
      (\<exists>r. history_of w' = history_of w @
              [\<lparr>role = str ''user'', content = the (chat_input x)\<rparr>,
               \<lparr>role = str ''assistant'', content = r\<rparr>]))"
proof -
  from main_step [OF assms, of x] obtain w' where
    m: "main x w = Some w'" "session_ok w'"
      "session_bot w' = Some (case session_bot w of Some b \<Rightarrow> b | None \<Rightarrow> fst (RecipeBot_init x w))"
      "\<exists>n. renders w' = renders w @ replicate n None"
    and h: "if button x then history_of w' = []
      else if truthy (chat_input x)
        then \<exists>r. history_of w' = history_of w @
                    [\<lparr>role = str ''user'', content = the (chat_input x)\<rparr>,
                     \<lparr>role = str ''assistant'', content = r\<rparr>]
      else history_of w' = history_of w"
    by blast
  from h have "history_of w' = [] \<or> history_of w' = history_of w \<or>
      history_of w' = history_of w @ [\<lparr>role = str ''user'', content = the (chat_input x)\<rparr>] \<or>
      (\<exists>r. history_of w' = history_of w @
              [\<lparr>role = str ''user'', content = the (chat_input x)\<rparr>,
               \<lparr>role = str ''assistant'', content = r\<rparr>])"
    by (auto split: if_splits)
  with m show ?thesis by auto
qed

lemma script_run_step:
  assumes ok: "session_ok w"
  shows "\<exists>w'. script_run x w = Some w' \<and> session_ok w' \<and>
     (\<forall>b. session_bot w = Some b \<longrightarrow> session_bot w' = Some b) \<and>
     (\<exists>n. renders w' = renders w @ replicate n None) \<and>
     (history_of w' = [] \<or> history_of w' = history_of w \<or>
      history_of w' = history_of w @ [\<lparr>role = str ''user'', content = the (chat_input x)\<rparr>] \<or>
      (\<exists>r. history_of w' = history_of w @
              [\<lparr>role = str ''user'', content = the (chat_input x)\<rparr>,
               \<lparr>role = str ''assistant'', content = r\<rparr>]))"
    (is "\<exists>w'. script_run x w = Some w' \<and> ?Q w'")
proof -
  let ?U = "\<lparr>role = str ''user'', content = the (chat_input x)\<rparr>"
  let ?w2 = "session_init x w"
  from main_step_outcome [OF ok, of x] obtain wm where
    mainQ: "main x w = Some wm" "?Q wm" by blast
  from session_init_facts [OF ok, of x] obtain m n where
    sm: "session_messages ?w2 = Some m" and lt: "m < length (heap ?w2)"
    and hm: "heap ?w2 ! m = history_of w"
    and sb: "session_bot ?w2 =
        Some (case session_bot w of Some b \<Rightarrow> b | None \<Rightarrow> fst (RecipeBot_init x w))"
    and rn: "renders ?w2 = renders w @ replicate n None"
    by blast
  have stage: "?Q v" if "session_messages v = Some m" "m < length (heap v)"
      "session_bot v = session_bot ?w2" "renders v = renders ?w2"
      "heap v ! m = history_of w \<or> heap v ! m = history_of w @ [?U] \<or>
       (\<exists>r. heap v ! m = history_of w @ [?U, \<lparr>role = str ''assistant'', content = r\<rparr>])" for v
    using that sb rn by (auto simp: session_ok_def history_of_def)
  have init: "?Q ?w2"
    using sm lt hm by (intro stage) simp_all
  let ?w1 = "list_append m ?U ?w2"
  have w1: "session_messages ?w1 = Some m" "m < length (heap ?w1)"
      "session_bot ?w1 = session_bot ?w2" "renders ?w1 = renders ?w2"
      "heap ?w1 ! m = history_of w @ [?U]"
    using sm lt hm by (simp_all add: list_append_def)
  have user: "user_turn x ?w2 = Some ?w1" if "truthy (chat_input x)"
  proof -
    from that obtain prompt where "chat_input x = Some prompt"
      by (auto simp: truthy_def split: option.splits)
    then show ?thesis
      using user_turn_appends [OF _ sm lt, of x prompt] by simp
  qed
  have after: "?Q v" if "heap v = heap ?w1 @ new" "session_bot v = session_bot ?w1"
      "session_messages v = session_messages ?w1" "renders v = renders ?w1" for v new
    using that w1 by (intro stage) (simp_all add: nth_append)
  show ?thesis
  proof (cases "stop x")
    case No_stop
    then show ?thesis using mainQ by (simp add: script_run_def)
  next
    case Stop_at_config
    have "renders w = renders w @ replicate 0 None" by simp
    then have "?Q w" using ok by blast
    with Stop_at_config show ?thesis by (simp add: script_run_def)
  next
    case Stop_at_warning
    show ?thesis
    proof (cases "session_bot w = None \<and> load_system_prompt_stopped x None w \<noteq> None")
      case True
      then obtain w' where l: "load_system_prompt_stopped x None w = Some w'" by auto
      then have e: "heap w' = heap w" "session_messages w' = session_messages w"
          "session_bot w' = session_bot w"
        and "renders w' = renders w @ replicate 0 None \<or> renders w' = renders w @ replicate 1 None"
        by (auto simp: load_system_prompt_stopped_def split: sum.splits)
      then have r: "\<exists>n. renders w' = renders w @ replicate n None"
        by blast
      have "session_ok w'" and "history_of w' = history_of w"
        using ok e by (auto simp: session_ok_def history_of_def split: option.splits)
      with e r have "?Q w'"
        by simp
      then show ?thesis
        using Stop_at_warning True l by (simp add: script_run_def)
    next
      case False
      then have "script_run x w = main x w"
        using Stop_at_warning by (auto simp: script_run_def split: option.splits)
      then show ?thesis using mainQ by simp
    qed
  next
    case Stop_at_header
    then show ?thesis using init by (simp add: script_run_def)
  next
    case Stop_at_user_echo
    show ?thesis
    proof (cases "truthy (chat_input x)")
      case True
      have "?Q ?w1" using w1 by (intro stage) simp_all
      then show ?thesis
        using Stop_at_user_echo True user by (simp add: script_run_def)
    next
      case False
      then show ?thesis
        using Stop_at_user_echo mainQ by (simp add: script_run_def)
    qed
  next
    case Stop_at_error
    show ?thesis
    proof (cases "truthy (chat_input x)")
      case True
      show ?thesis
      proof (cases "error_site x ?w1")
        case None
        then show ?thesis
          using Stop_at_error True user mainQ by (simp add: script_run_def)
      next
        case (Some w')
        from error_site_frame [OF w1(1) w1(2) Some] have "?Q w'"
          using after by blast
        then show ?thesis
          using Stop_at_error True user Some by (simp add: script_run_def)
      qed
    next
      case False
      then show ?thesis
        using Stop_at_error mainQ by (simp add: script_run_def)
    qed
  next
    case Stop_at_response
    show ?thesis
    proof (cases "truthy (chat_input x)")
      case True
      then obtain prompt where p: "chat_input x = Some prompt"
        by (auto simp: truthy_def split: option.splits)
      have b: "session_bot ?w1 =
          Some (case session_bot w of Some b \<Rightarrow> b | None \<Rightarrow> fst (RecipeBot_init x w))"
        using w1(3) sb by simp
      from response_call_frame [OF p b w1(1) w1(2)] obtain r w' new where
        c: "response_call x ?w1 = Some (r, w')" and f: "heap w' = heap ?w1 @ new"
          "session_bot w' = session_bot ?w1" "session_messages w' = session_messages ?w1"
          "renders w' = renders ?w1"
        by blast
      from f have "?Q w'" by (rule after)
      then show ?thesis
        using Stop_at_response True user c by (simp add: script_run_def)
    next
      case False
      then show ?thesis
        using Stop_at_response mainQ by (simp add: script_run_def)
    qed
  next
    case Stop_at_sidebar
    show ?thesis
    proof (cases "truthy (chat_input x)")
      case True
      then obtain prompt where p: "chat_input x = Some prompt" "prompt \<noteq> []"
        by (auto simp: truthy_def split: option.splits)
      from chat_step_interaction [OF p sb sm lt] obtain r w' new where
        c: "chat_step x ?w2 = Some w'"
        and h: "heap w' = (heap ?w2)[m := heap ?w2 ! m @ [\<lparr>role = str ''user'', content = prompt\<rparr>,
                 \<lparr>role = str ''assistant'', content = r\<rparr>]] @ new"
        and f: "session_bot w' = session_bot ?w2" "session_messages w' = session_messages ?w2"
          "renders w' = renders ?w2"
        by blast
      have "heap w' ! m = history_of w @ [?U, \<lparr>role = str ''assistant'', content = r\<rparr>]"
        using h lt hm p by (simp add: nth_append)
      moreover have "m < length (heap w')" using h lt by simp
      ultimately have "?Q w'"
        using f sm by (intro stage) auto
      then show ?thesis
        using Stop_at_sidebar c by (simp add: script_run_def)
    next
      case False
      then have "chat_step x ?w2 = Some ?w2" by (rule chat_step_idle)
      then show ?thesis
        using Stop_at_sidebar init by (simp add: script_run_def)
    qed
  qed
qed

section \<open>Sessions\<close>

lemma alternating_snoc2:
  assumes "alternating h" "even (length h)"
  shows "alternating (h @ [\<lparr>role = str ''user'', content = p\<rparr>, \<lparr>role = str ''assistant'', content = r\<rparr>])"
  unfolding alternating_def
proof (intro allI impI)
  fix i
  assume "i < length (h @ [\<lparr>role = str ''user'', content = p\<rparr>, \<lparr>role = str ''assistant'', content = r\<rparr>])"
  then consider "i < length h" | "i = length h" | "i = Suc (length h)"
    by fastforce
  then show "role ((h @ [\<lparr>role = str ''user'', content = p\<rparr>, \<lparr>role = str ''assistant'', content = r\<rparr>]) ! i) =
        (if even i then str ''user'' else str ''assistant'')"
  proof cases
    case 1
    then show ?thesis using assms(1) by (simp add: alternating_def nth_append)
  next
    case 2
    then show ?thesis using assms(2) by (simp add: nth_append)
  next
    case 3
    then show ?thesis using assms(2) by (simp add: nth_append)
  qed
qed

lemma main_alternating:
  assumes "session_ok w" "alternating (history_of w)" "even (length (history_of w))"
    and "main x w = Some w'"
  shows "alternating (history_of w') \<and> even (length (history_of w'))"
proof -
  from main_step [OF assms(1), of x] assms(4)
  have h: "if button x then history_of w' = []
      else if truthy (chat_input x)
        then \<exists>r. history_of w' = history_of w @
                    [\<lparr>role = str ''user'', content = the (chat_input x)\<rparr>,
                     \<lparr>role = str ''assistant'', content = r\<rparr>]
      else history_of w' = history_of w"
    by auto
  show ?thesis
  proof (cases "button x")
    case True
    with h show ?thesis by (simp add: alternating_def)
  next
    case False
    show ?thesis
    proof (cases "truthy (chat_input x)")
      case True
      with h \<open>\<not> button x\<close> obtain r where "history_of w' = history_of w @
                    [\<lparr>role = str ''user'', content = the (chat_input x)\<rparr>,
                     \<lparr>role = str ''assistant'', content = r\<rparr>]" by auto
      then show ?thesis using assms(2,3) by (simp add: alternating_snoc2)
    next
      case False
      with h \<open>\<not> button x\<close> show ?thesis using assms(2,3) by simp
    qed
  qed
qed

lemma answers_follow_user_step:
  assumes "answers_follow_user h"
    and "h' = [] \<or> h' = h \<or> h' = h @ [\<lparr>role = str ''user'', content = p\<rparr>] \<or>
         (\<exists>r. h' = h @ [\<lparr>role = str ''user'', content = p\<rparr>,
                        \<lparr>role = str ''assistant'', content = r\<rparr>])"
  shows "answers_follow_user h'"
proof -
  have old: "role ((h @ t) ! i) = str ''user'' \<or>
        (role ((h @ t) ! i) = str ''assistant'' \<and> 0 < i \<and> role ((h @ t) ! (i - 1)) = str ''user'')"
    if "i < length h" for i t
  proof -
    from assms(1) that have "role (h ! i) = str ''user'' \<or>
        (role (h ! i) = str ''assistant'' \<and> 0 < i \<and> role (h ! (i - 1)) = str ''user'')"
      by (simp add: answers_follow_user_def)
    moreover have "i - 1 < length h" using that by simp
    ultimately show ?thesis using that by (simp add: nth_append)
  qed
  from assms(2) consider "h' = []" | "h' = h"
    | "h' = h @ [\<lparr>role = str ''user'', content = p\<rparr>]"
    | r where "h' = h @ [\<lparr>role = str ''user'', content = p\<rparr>,
                        \<lparr>role = str ''assistant'', content = r\<rparr>]"
    by blast
  then show ?thesis
  proof cases
    case 1
    then show ?thesis by (simp add: answers_follow_user_def)
  next
    case 2
    then show ?thesis using assms(1) by simp
  next
    case 3
    show ?thesis
      unfolding answers_follow_user_def 3
    proof (intro allI impI)
      fix i
      assume "i < length (h @ [\<lparr>role = str ''user'', content = p\<rparr>])"
      then consider "i < length h" | "i = length h" by fastforce
      then show "role ((h @ [\<lparr>role = str ''user'', content = p\<rparr>]) ! i) = str ''user'' \<or>
          (role ((h @ [\<lparr>role = str ''user'', content = p\<rparr>]) ! i) = str ''assistant'' \<and> 0 < i \<and>
           role ((h @ [\<lparr>role = str ''user'', content = p\<rparr>]) ! (i - 1)) = str ''user'')"
      proof cases
        case 1
        then show ?thesis by (rule old)
      next
        case 2
        then show ?thesis by (simp add: nth_append)
      qed
    qed
  next
    case 4
    let ?t = "[\<lparr>role = str ''user'', content = p\<rparr>, \<lparr>role = str ''assistant'', content = r\<rparr>]"
    show ?thesis
      unfolding answers_follow_user_def 4
    proof (intro allI impI)
      fix i
      assume "i < length (h @ ?t)"
      then consider "i < length h" | "i = length h" | "i = Suc (length h)" by fastforce
      then show "role ((h @ ?t) ! i) = str ''user'' \<or>
          (role ((h @ ?t) ! i) = str ''assistant'' \<and> 0 < i \<and>
           role ((h @ ?t) ! (i - 1)) = str ''user'')"
      proof cases
        case 1
        then show ?thesis by (rule old)
      next
        case 2
        then show ?thesis by (simp add: nth_append)
      next
        case 3
        then show ?thesis by (simp add: nth_append)
      qed
    qed
  qed
qed

lemma run_invariant:
  assumes "session_ok w"
  shows "\<exists>w'. run xs w = Some w' \<and> session_ok w' \<and>
           (\<exists>n. renders w' = renders w @ replicate n None) \<and>
           (\<forall>b. session_bot w = Some b \<longrightarrow> session_bot w' = Some b) \<and>
           (answers_follow_user (history_of w) \<longrightarrow> answers_follow_user (history_of w')) \<and>
           (list_all (\<lambda>x. stop x = No_stop) xs \<and>
            alternating (history_of w) \<and> even (length (history_of w)) \<longrightarrow>
              alternating (history_of w') \<and> even (length (history_of w')))"
  using assms
proof (induction xs arbitrary: w)
  case Nil
  have "renders w = renders w @ replicate 0 None" by simp
  then show ?case using Nil by auto
next
  case (Cons x xs)
  from script_run_step [OF Cons.prems, of x] obtain w1 n1 where
    m: "script_run x w = Some w1" and ok1: "session_ok w1"
    and b1: "\<forall>b. session_bot w = Some b \<longrightarrow> session_bot w1 = Some b"
    and r1: "renders w1 = renders w @ replicate n1 None"
    and h1: "history_of w1 = [] \<or> history_of w1 = history_of w \<or>
      history_of w1 = history_of w @ [\<lparr>role = str ''user'', content = the (chat_input x)\<rparr>] \<or>
      (\<exists>r. history_of w1 = history_of w @
              [\<lparr>role = str ''user'', content = the (chat_input x)\<rparr>,
               \<lparr>role = str ''assistant'', content = r\<rparr>])"
    by blast
  from Cons.IH [OF ok1] obtain w' n where
    r: "run xs w1 = Some w'" and ok: "session_ok w'"
    and rn: "renders w' = renders w1 @ replicate n None"
    and b: "\<forall>b. session_bot w1 = Some b \<longrightarrow> session_bot w' = Some b"
    and f: "answers_follow_user (history_of w1) \<longrightarrow> answers_follow_user (history_of w')"
    and a: "list_all (\<lambda>x. stop x = No_stop) xs \<and>
            alternating (history_of w1) \<and> even (length (history_of w1)) \<longrightarrow>
              alternating (history_of w') \<and> even (length (history_of w'))"
    by blast
  have "renders w' = renders w @ replicate (n1 + n) None"
    using rn r1 by (simp add: replicate_add)
  moreover have "answers_follow_user (history_of w) \<longrightarrow> answers_follow_user (history_of w')"
    using answers_follow_user_step [OF _ h1] f by blast
  moreover have "list_all (\<lambda>x. stop x = No_stop) (x # xs) \<and>
            alternating (history_of w) \<and> even (length (history_of w)) \<longrightarrow>
              alternating (history_of w') \<and> even (length (history_of w'))"
  proof (intro impI)
    assume c: "list_all (\<lambda>x. stop x = No_stop) (x # xs) \<and>
            alternating (history_of w) \<and> even (length (history_of w))"
    then have "main x w = Some w1"
      using m by (simp add: script_run_complete)
    from main_alternating [OF Cons.prems _ _ this] c a
    show "alternating (history_of w') \<and> even (length (history_of w'))"
      by simp
  qed
  ultimately show ?case
    using m r ok b b1 by auto
qed

lemma init_world_ok: "session_ok init_world \<and> alternating (history_of init_world) \<and>
    even (length (history_of init_world)) \<and> renders init_world = [] \<and>
    answers_follow_user (history_of init_world)"
  by (simp add: init_world_def session_ok_def alternating_def history_of_def
        answers_follow_user_def)

lemma get_ai_response_env: "get_ai_response (x\<lparr>getenv := e\<rparr>) self u h w = get_ai_response x self u h w"
proof -
  have ul: "unicode_lower (x\<lparr>getenv := e\<rparr>) = unicode_lower x"
    and cr: "create (x\<lparr>getenv := e\<rparr>) = create x" by simp_all
  show ?thesis
    unfolding get_ai_response_def ul cr by (rule refl)
qed

lemma chat_step_env: "chat_step (x\<lparr>getenv := e\<rparr>) w = chat_step x w"
proof -
  have ci: "chat_input (x\<lparr>getenv := e\<rparr>) = chat_input x" by simp
  show ?thesis
    unfolding chat_step_def get_ai_response_env ci by (rule refl)
qed

lemma main_env:
  assumes "session_bot w = Some b"
  shows "main (x\<lparr>getenv := e\<rparr>) w = main x w"
proof -
  have bt: "button (x\<lparr>getenv := e\<rparr>) = button x" by simp
  show ?thesis
    unfolding main_def chat_step_env bt using assms by simp
qed

lemma backend_fails_env: "backend_fails (x\<lparr>getenv := e\<rparr>) c req = backend_fails x c req"
  by (simp add: backend_fails_def)

lemma get_ai_response_stopped_env:
  "get_ai_response_stopped (x\<lparr>getenv := e\<rparr>) self u h w = get_ai_response_stopped x self u h w"
  unfolding get_ai_response_stopped_def backend_fails_env by (rule refl)

lemma script_run_env:
  assumes "session_bot w = Some b"
  shows "script_run (x\<lparr>getenv := e\<rparr>) w = script_run x w"
proof -
  have st: "stop (x\<lparr>getenv := e\<rparr>) = stop x"
    and ci: "chat_input (x\<lparr>getenv := e\<rparr>) = chat_input x" by simp_all
  have si: "session_init (x\<lparr>getenv := e\<rparr>) w = session_init x w"
    using assms by (simp add: session_init_def)
  have ut: "user_turn (x\<lparr>getenv := e\<rparr>) v = user_turn x v" for v
    by (simp add: user_turn_def)
  have rc: "response_call (x\<lparr>getenv := e\<rparr>) v = response_call x v" for v
    unfolding response_call_def get_ai_response_env ci by (rule refl)
  have es: "error_site (x\<lparr>getenv := e\<rparr>) v = error_site x v" for v
    unfolding error_site_def get_ai_response_stopped_env ci by (rule refl)
  show ?thesis
    unfolding script_run_def st ci si ut rc es main_env [OF assms] chat_step_env
    by (cases "stop x") (simp_all add: assms)
qed

section \<open>The fallback responder: priority and matching\<close>

text \<open>
  Claim C4. The fallback response is the reply of the earliest entry of the table (pasta, meat,
  vegetarian, dessert, in this order) whose keyword set matches the lowercased utterance, whatever
  later sets match as well; and when no set matches it is the generic reply.
\<close>

theorem fallback_priority_order:
  "get_fallback_response ul utterance = earliest_match_reply ul utterance \<and>
   (list_all (\<lambda>entry. \<not> any_word_in (fst entry) (str_lower ul utterance)) keyword_table \<longrightarrow>
      get_fallback_response ul utterance = generic_reply)"
  by (simp add: get_fallback_response_def earliest_match_reply_def keyword_table_def Let_def)

theorem fallback_priority_order_witness:
  "any_word_in [str ''pasta'', str ''spaghetti'', str ''noodles'']
     (str_lower (\<lambda>s. s) (str ''vegan spaghetti'')) \<and>
   any_word_in [str ''vegetarian'', str ''vegan'', str ''vegetables'']
     (str_lower (\<lambda>s. s) (str ''vegan spaghetti'')) \<and>
   earliest_match_reply (\<lambda>s. s) (str ''vegan spaghetti'') = pasta_reply \<and>
   list_all (\<lambda>entry. \<not> any_word_in (fst entry) (str_lower (\<lambda>s. s) (str ''what's the weather'')))
     keyword_table \<and>
   get_fallback_response (\<lambda>s. s) (str ''what's the weather'') = generic_reply"
proof -
  have a: "any_word_in [str ''pasta'', str ''spaghetti'', str ''noodles'']
     (str_lower (\<lambda>s. s) (str ''vegan spaghetti''))"
    and b: "any_word_in [str ''vegetarian'', str ''vegan'', str ''vegetables'']
     (str_lower (\<lambda>s. s) (str ''vegan spaghetti''))"
    by (simp_all add: str_lower_def any_word_in_def str_def ascii_lower_def)
  have c: "list_all (\<lambda>entry. \<not> any_word_in (fst entry) (str_lower (\<lambda>s. s) (str ''what's the weather'')))
     keyword_table"
    by (simp add: keyword_table_def str_lower_def any_word_in_def str_def ascii_lower_def)
  have d: "get_fallback_response (\<lambda>s. s) (str ''vegan spaghetti'') = pasta_reply"
    by (simp add: get_fallback_response_def str_lower_def any_word_in_def str_def ascii_lower_def)
  from fallback_priority_order [of "\<lambda>s. s" "str ''vegan spaghetti''"] d
  have e: "earliest_match_reply (\<lambda>s. s) (str ''vegan spaghetti'') = pasta_reply"
    by simp
  from fallback_priority_order [of "\<lambda>s. s" "str ''what's the weather''"] c
  have f: "get_fallback_response (\<lambda>s. s) (str ''what's the weather'') = generic_reply"
    by blast
  from a b c e f show ?thesis by blast
qed

text \<open>
  Claim C8. A keyword set matches exactly when one of its keywords occurs in the lowercased
  utterance as a run of consecutive code points, anywhere, also inside a longer word: the
  responder's chain is the chain of these tests, a text containing \<open>meatless\<close> matches the meat
  set and a text containing \<open>sweetcorn\<close> matches the dessert set.
\<close>

theorem keyword_match_is_substring:
  "get_fallback_response ul utterance =
     (let s = str_lower ul utterance in
      if keyword_occurs [str ''pasta'', str ''spaghetti'', str ''noodles''] s then pasta_reply
      else if keyword_occurs [str ''chicken'', str ''meat''] s then chicken_reply
      else if keyword_occurs [str ''vegetarian'', str ''vegan'', str ''vegetables''] s then veggie_reply
      else if keyword_occurs [str ''dessert'', str ''sweet'', str ''cake''] s then dessert_reply
      else generic_reply) \<and>
   (any_word_in keywords (str_lower ul utterance) = keyword_occurs keywords (str_lower ul utterance)) \<and>
   ((\<exists>before after. str_lower ul utterance = before @ str ''meatless'' @ after) \<longrightarrow>
      any_word_in [str ''chicken'', str ''meat''] (str_lower ul utterance)) \<and>
   ((\<exists>before after. str_lower ul utterance = before @ str ''sweetcorn'' @ after) \<longrightarrow>
      any_word_in [str ''dessert'', str ''sweet'', str ''cake''] (str_lower ul utterance))"
proof -
  have meat: "str ''meatless'' = str ''meat'' @ str ''less''"
    and sweet: "str ''sweetcorn'' = str ''sweet'' @ str ''corn''"
    by (simp_all add: str_def)
  have m: "keyword_occurs [str ''chicken'', str ''meat''] (before @ str ''meatless'' @ after)"
    for before after
    unfolding keyword_occurs_def meat
    by (rule exI [of _ "str ''meat''"], simp, rule exI [of _ before],
        rule exI [of _ "str ''less'' @ after"], simp)
  have s: "keyword_occurs [str ''dessert'', str ''sweet'', str ''cake''] (before @ str ''sweetcorn'' @ after)"
    for before after
    unfolding keyword_occurs_def sweet
    by (rule exI [of _ "str ''sweet''"], simp, rule exI [of _ before],
        rule exI [of _ "str ''corn'' @ after"], simp)
  show ?thesis
    using m s by (auto simp: get_fallback_response_def any_word_in_occurs Let_def)
qed

theorem keyword_match_is_substring_witness:
  "(\<exists>before after. str_lower (\<lambda>s. s) (str ''Meatless Monday'') = before @ str ''meatless'' @ after) \<and>
   any_word_in [str ''chicken'', str ''meat''] (str_lower (\<lambda>s. s) (str ''Meatless Monday'')) \<and>
   get_fallback_response (\<lambda>s. s) (str ''Meatless Monday'') = chicken_reply \<and>
   get_fallback_response (\<lambda>s. s) (str ''sweetcorn fritters'') = dessert_reply"
proof -
  have l: "str_lower (\<lambda>s. s) (str ''Meatless Monday'') = [] @ str ''meatless'' @ str '' monday''"
    by (simp add: str_lower_def str_def ascii_lower_def)
  then have e: "\<exists>before after. str_lower (\<lambda>s. s) (str ''Meatless Monday'') = before @ str ''meatless'' @ after"
    by blast
  have "get_fallback_response (\<lambda>s. s) (str ''Meatless Monday'') = chicken_reply"
    and "get_fallback_response (\<lambda>s. s) (str ''sweetcorn fritters'') = dessert_reply"
    by (simp_all add: get_fallback_response_def str_lower_def any_word_in_def str_def ascii_lower_def)
  then show ?thesis
    using keyword_match_is_substring [of "\<lambda>s. s" "str ''Meatless Monday''" "[]"] e by simp
qed

section \<open>Calls on the example collaborators\<close>

lemma get_ai_response_eval:
  assumes "h < length (heap w)"
  shows "get_ai_response x \<lparr>client = Some c, system_prompt = p\<rparr> u h w =
     (let req = request_for \<lparr>client = Some c, system_prompt = p\<rparr> u (heap w ! h);
          w4 = w\<lparr>heap := heap w @ [messages req], calls := calls w @ [req]\<rparr>
      in case create x c req of
           Inl e \<Rightarrow>
             Some (get_fallback_response (unicode_lower x) u,
                   w4\<lparr>notices := notices w @
                       [Error (str ''Error getting AI response: '' @ message e)]\<rparr>)
         | Inr resp \<Rightarrow>
             (case choices resp of
                [] \<Rightarrow>
                  Some (get_fallback_response (unicode_lower x) u,
                        w4\<lparr>notices := notices w @
                            [Error (str ''Error getting AI response: '' @
                                    str ''list index out of range'')]\<rparr>)
              | t # _ \<Rightarrow> Some (t, w4)))"
  using assms by (intro get_ai_response_backend) simp_all

lemma online_call:
  "get_ai_response online example_bot (str ''hi there'') 0 example_world =
     Some (str ''Try a risotto.'',
           example_world\<lparr>heap := heap example_world @
               [[\<lparr>role = str ''system'', content = str ''You are a recipe bot.''\<rparr>,
                 \<lparr>role = str ''user'', content = str ''hello''\<rparr>,
                 \<lparr>role = str ''assistant'', content = str ''hi''\<rparr>,
                 \<lparr>role = str ''user'', content = str ''hi there''\<rparr>]],
             calls := [request_for example_bot (str ''hi there'') (heap example_world ! 0)]\<rparr>)"
  by (simp add: example_bot_def example_world_def init_world_def get_ai_response_eval
        online_def request_for_def Let_def)

lemma offline_call:
  "get_ai_response offline example_bot (str ''any cake?'') 0 example_world =
     Some (dessert_reply,
           example_world\<lparr>heap := heap example_world @
               [[\<lparr>role = str ''system'', content = str ''You are a recipe bot.''\<rparr>,
                 \<lparr>role = str ''user'', content = str ''hello''\<rparr>,
                 \<lparr>role = str ''assistant'', content = str ''hi''\<rparr>,
                 \<lparr>role = str ''user'', content = str ''any cake?''\<rparr>]],
             calls := [request_for example_bot (str ''any cake?'') (heap example_world ! 0)],
             notices := [Error (str ''Error getting AI response: Connection error.'')]\<rparr>)"
proof -
  have "get_fallback_response (\<lambda>s. s) (str ''any cake?'') = dessert_reply"
    by (simp add: get_fallback_response_def str_lower_def any_word_in_def str_def ascii_lower_def)
  then show ?thesis
    by (simp add: example_bot_def example_world_def init_world_def get_ai_response_eval
        offline_def request_for_def Let_def str_def)
qed

section \<open>The session: mode, history and prompt\<close>

lemma run_env:
  assumes "session_ok w" "session_bot w = Some b"
  shows "run (map (\<lambda>x. x\<lparr>getenv := env x\<rparr>) xs) w = run xs w"
  using assms
proof (induction xs arbitrary: w)
  case Nil
  then show ?case by simp
next
  case (Cons x xs)
  from script_run_step [OF Cons.prems(1), of x] Cons.prems(2) obtain w1 where
    m: "script_run x w = Some w1" and ok1: "session_ok w1" and b1: "session_bot w1 = Some b"
    by auto
  show ?case
    using Cons.IH [OF ok1 b1] m by (simp add: script_run_env [OF Cons.prems(2)])
qed

lemma init_client:
  "client (fst (RecipeBot_init x w)) = None \<longleftrightarrow> \<not> truthy (getenv x (str ''OPENAI_API_KEY''))"
  by (auto simp: RecipeBot_init_def truthy_def split: prod.splits option.splits)

text \<open>
  Claim C7. The first run of the script, run to its end, constructs the orchestrator from the
  environment of that run: it has no client exactly when that environment holds no
  credential. After every sequence of further runs, stopped by Streamlit or not, the session
  still holds this very orchestrator (same client, same system prompt), and replacing the
  environment of each further run by any other changes nothing in what the runs do: the
  credential is not looked at again.
\<close>

theorem mode_fixed_at_construction:
  "\<exists>w1 b. main x0 init_world = Some w1 \<and> session_bot w1 = Some b \<and>
      b = fst (RecipeBot_init x0 init_world) \<and>
      (client b = None \<longleftrightarrow> \<not> truthy (getenv x0 (str ''OPENAI_API_KEY''))) \<and>
      (\<exists>w'. run xs w1 = Some w' \<and> session_bot w' = Some b) \<and>
      run (map (\<lambda>x. x\<lparr>getenv := env x\<rparr>) xs) w1 = run xs w1"
proof -
  have ok0: "session_ok init_world" using init_world_ok by simp
  have nb: "session_bot init_world = None" by (simp add: init_world_def)
  from main_step [OF ok0, of x0] nb obtain w1 where
    m: "main x0 init_world = Some w1" and ok1: "session_ok w1"
    and b1: "session_bot w1 = Some (fst (RecipeBot_init x0 init_world))"
    by auto
  from run_invariant [OF ok1, of xs] b1 obtain w' where
    "run xs w1 = Some w'" "session_bot w' = Some (fst (RecipeBot_init x0 init_world))"
    by blast
  then show ?thesis
    using m b1 run_env [OF ok1 b1] init_client by blast
qed


text \<open>
  Claim C10. In every state a session reaches, whichever runs Streamlit stopped, every
  \<open>template.render\<close> so far was given
  \<open>additional_context = None\<close>; the constructor renders with \<open>None\<close> at most once, and the
  system prompt of every orchestrator it builds is the template rendered with \<open>None\<close>, or the
  default prompt.
\<close>

theorem additional_context_always_none:
  "(\<exists>w n. run xs init_world = Some w \<and> renders w = replicate n None) \<and>
   (\<exists>n. renders (snd (RecipeBot_init x w0)) = renders w0 @ replicate n None) \<and>
   system_prompt (fst (RecipeBot_init x w0)) =
     (case get_template x (str ''recipe_bot_prompt.j2'') of
        Inl e \<Rightarrow> default_prompt
      | Inr render \<Rightarrow> (case render None of Inl e \<Rightarrow> default_prompt | Inr prompt \<Rightarrow> prompt))"
proof -
  from run_invariant [of init_world xs] init_world_ok
  have "\<exists>w n. run xs init_world = Some w \<and> renders w = replicate n None"
    by fastforce
  moreover have "system_prompt (fst (RecipeBot_init x w0)) =
     (case get_template x (str ''recipe_bot_prompt.j2'') of
        Inl e \<Rightarrow> default_prompt
      | Inr render \<Rightarrow> (case render None of Inl e \<Rightarrow> default_prompt | Inr prompt \<Rightarrow> prompt))"
    by (simp add: RecipeBot_init_def load_system_prompt_def split: prod.splits sum.splits)
  ultimately show ?thesis
    using RecipeBot_init_frame [of x w0] by blast
qed

section \<open>Runs on the example collaborators\<close>

lemma str_Nil [simp]: "str s = [] \<longleftrightarrow> s = []"
  by (simp add: str_def)

lemma init_online: "RecipeBot_init online init_world = (example_bot, init_world\<lparr>renders := [None]\<rparr>)"
  by (simp add: RecipeBot_init_def load_system_prompt_def online_def truthy_def example_bot_def
        init_world_def)

lemma first_visit:
  "main online init_world =
     Some (init_world\<lparr>heap := [[]], renders := [None], session_bot := Some example_bot,
                     session_messages := Some 0\<rparr>)"
proof -
  have "chat_step online w = Some w" for w
    by (simp add: chat_step_def online_def truthy_def)
  moreover have "\<not> button online" by (simp add: online_def)
  ultimately show ?thesis
    unfolding main_def init_online Let_def
    by (simp add: init_world_def new_list_def)
qed




section \<open>The theorems at concrete inputs\<close>

theorem backend_failure_falls_back_witness:
  "backend_fails offline \<lparr>api_key = str ''sk-test''\<rparr>
     (request_for example_bot (str ''any cake?'') (heap example_world ! 0)) \<and>
   (\<exists>w'. get_ai_response offline example_bot (str ''any cake?'') 0 example_world =
            Some (dessert_reply, w') \<and>
          notices w' = [Error (str ''Error getting AI response: Connection error.'')] \<and>
          calls w' = [request_for example_bot (str ''any cake?'') (heap example_world ! 0)]) \<and>
   get_ai_response offline (example_bot\<lparr>client := None\<rparr>) (str ''any cake?'') 0 example_world =
     Some (dessert_reply, example_world)"
proof -
  have c: "client example_bot = Some \<lparr>api_key = str ''sk-test''\<rparr>"
    by (simp add: example_bot_def)
  have h: "0 < length (heap example_world)"
    by (simp add: example_world_def)
  have f: "backend_fails offline \<lparr>api_key = str ''sk-test''\<rparr>
     (request_for example_bot (str ''any cake?'') (heap example_world ! 0))"
    by (simp add: backend_fails_def offline_def)
  have d: "get_fallback_response (unicode_lower offline) (str ''any cake?'') = dessert_reply"
    by (simp add: get_fallback_response_def str_lower_def any_word_in_def str_def ascii_lower_def
          offline_def)
  from backend_failure_falls_back [OF c h f] obtain w' reason where
    g: "get_ai_response offline example_bot (str ''any cake?'') 0 example_world =
          Some (get_fallback_response (unicode_lower offline) (str ''any cake?''), w')"
    and k: "calls w' = calls example_world @
          [request_for example_bot (str ''any cake?'') (heap example_world ! 0)]"
    and n: "get_ai_response offline (example_bot\<lparr>client := None\<rparr>) (str ''any cake?'') 0
          example_world =
          Some (get_fallback_response (unicode_lower offline) (str ''any cake?''), example_world)"
    by blast
  from g offline_call have "notices w' = [Error (str ''Error getting AI response: Connection error.'')]"
    by auto
  moreover have "calls example_world = []"
    by (simp add: example_world_def init_world_def)
  ultimately show ?thesis
    using f g k n d by simp
qed

theorem request_assembly_witness:
  "\<exists>w'. get_ai_response online example_bot (str ''hi there'') 0 example_world =
          Some (str ''Try a risotto.'', w') \<and>
        calls w' =
          [\<lparr>model = str ''gpt-3.5-turbo'',
            messages = [\<lparr>role = str ''system'', content = str ''You are a recipe bot.''\<rparr>,
                        \<lparr>role = str ''user'', content = str ''hello''\<rparr>,
                        \<lparr>role = str ''assistant'', content = str ''hi''\<rparr>,
                        \<lparr>role = str ''user'', content = str ''hi there''\<rparr>],
            max_tokens = 500, temperature = 0.7\<rparr>]"
proof -
  have c: "client example_bot = Some \<lparr>api_key = str ''sk-test''\<rparr>"
    by (simp add: example_bot_def)
  have h: "0 < length (heap example_world)"
    by (simp add: example_world_def)
  from request_assembly [OF c h, of online "str ''hi there''"] obtain r w' where
    g: "get_ai_response online example_bot (str ''hi there'') 0 example_world = Some (r, w')"
    and k: "calls w' = calls example_world @
             [\<lparr>model = str ''gpt-3.5-turbo'',
               messages = [\<lparr>role = str ''system'', content = system_prompt example_bot\<rparr>] @
                          heap example_world ! 0 @
                          [\<lparr>role = str ''user'', content = str ''hi there''\<rparr>],
               max_tokens = 500, temperature = 0.7\<rparr>]"
    and v: "\<forall>resp completion rest.
              create online \<lparr>api_key = str ''sk-test''\<rparr>
                (request_for example_bot (str ''hi there'') (heap example_world ! 0)) = Inr resp \<and>
              choices resp = completion # rest \<longrightarrow> r = completion"
    by blast
  have "create online \<lparr>api_key = str ''sk-test''\<rparr>
          (request_for example_bot (str ''hi there'') (heap example_world ! 0)) =
        Inr \<lparr>choices = [str ''Try a risotto.'']\<rparr>"
    by (simp add: online_def)
  with v have "r = str ''Try a risotto.''"
    by simp
  then show ?thesis
    using g k by (simp add: example_world_def init_world_def example_bot_def)
qed

theorem history_unchanged_witness:
  "0 < length (heap example_world) \<and>
   (\<exists>r w'. get_ai_response online example_bot (str ''hi there'') 0 example_world = Some (r, w') \<and>
           prefix (heap example_world) (heap w') \<and>
           heap w' ! 0 = [\<lparr>role = str ''user'', content = str ''hello''\<rparr>,
                          \<lparr>role = str ''assistant'', content = str ''hi''\<rparr>])"
proof -
  have h: "0 < length (heap example_world)"
    by (simp add: example_world_def)
  have "heap example_world ! 0 = [\<lparr>role = str ''user'', content = str ''hello''\<rparr>,
                          \<lparr>role = str ''assistant'', content = str ''hi''\<rparr>]"
    by (simp add: example_world_def)
  then show ?thesis
    using h history_unchanged [OF h, of online example_bot "str ''hi there''"] by simp
qed

theorem prompt_load_failure_recovers_witness:
  "get_template offline (str ''recipe_bot_prompt.j2'') = Inl (Exception (str ''recipe_bot_prompt.j2'')) \<and>
   fst (load_system_prompt offline None init_world) = default_prompt \<and>
   notices (snd (load_system_prompt offline None init_world)) =
     [Warning (str ''Could not load prompt template: recipe_bot_prompt.j2'')]"
proof -
  have t: "get_template offline (str ''recipe_bot_prompt.j2'') =
      Inl (Exception (str ''recipe_bot_prompt.j2''))"
    by (simp add: offline_def)
  then have "get_template offline (str ''recipe_bot_prompt.j2'') =
      Inl (Exception (str ''recipe_bot_prompt.j2'')) \<or>
    (\<exists>render. get_template offline (str ''recipe_bot_prompt.j2'') = Inr render \<and>
        render None = Inl (Exception (str ''recipe_bot_prompt.j2'')))"
    by simp
  from prompt_load_failure_recovers [OF this, of init_world] t show ?thesis
    by (simp add: init_world_def str_def)
qed

theorem mode_fixed_at_construction_witness:
  "getenv offline (str ''OPENAI_API_KEY'') = None \<and>
   (\<exists>w1 w'. main online init_world = Some w1 \<and> session_bot w1 = Some example_bot \<and>
       run [offline\<lparr>chat_input := Some (str ''pasta?'')\<rparr>] w1 = Some w' \<and>
       session_bot w' = Some example_bot)"
proof -
  have b: "fst (RecipeBot_init online init_world) = example_bot"
    by (simp add: init_online)
  have e: "getenv offline (str ''OPENAI_API_KEY'') = None"
    by (simp add: offline_def)
  from mode_fixed_at_construction [of online "[offline\<lparr>chat_input := Some (str ''pasta?'')\<rparr>]"]
  obtain w1 w' where "main online init_world = Some w1"
    and "session_bot w1 = Some (fst (RecipeBot_init online init_world))"
    and "run [offline\<lparr>chat_input := Some (str ''pasta?'')\<rparr>] w1 = Some w'"
    and "session_bot w' = Some (fst (RecipeBot_init online init_world))"
    by blast
  with b e show ?thesis by auto
qed



theorem additional_context_always_none_witness:
  "(\<exists>w. run [online] init_world = Some w \<and> renders w = [None]) \<and>
   system_prompt (fst (RecipeBot_init offline init_world)) = default_prompt"
proof -
  from additional_context_always_none [of "[online]" offline init_world]
  have "system_prompt (fst (RecipeBot_init offline init_world)) = default_prompt"
    by (simp add: offline_def)
  moreover have "stop online = No_stop"
    by (simp add: online_def)
  then have "run [online] init_world = Some (init_world\<lparr>heap := [[]], renders := [None],
      session_bot := Some example_bot, session_messages := Some 0\<rparr>)"
    by (simp add: script_run_complete first_visit)
  ultimately show ?thesis
    by simp
qed

end
